theory Spec2Isabelle
  imports Main
begin

section \<open>Data model of nova\_powervm/virt/powervm/tasks/network.py\<close>

text \<open>
  A VIF is a dictionary of the caller's \<open>network_info\<close>. The tasks read three of its
  keys: \<open>vif['address']\<close>, \<open>vif['id']\<close> and \<open>vif.get('active', True)\<close>. The last
  key may be absent, so it is an option: \<open>None\<close> is the absent key.
\<close>

record vif =
  address :: string
  vif_id :: string
  active :: "bool option"

text \<open>
  A client network adapter wrapper (\<open>cna_w\<close>): the tasks read \<open>cna_w.mac\<close> and
  \<open>cna_w.vswitch_uri\<close>. A virtual switch wrapper is read through \<open>vswitch_w.href\<close>.
\<close>

record cna =
  mac :: string
  vswitch_uri :: string

record vswitch =
  href :: string

text \<open>
  The \<open>lpar_wrap\<close> argument of both \<open>execute\<close> methods:
  \<open>can_modify_io()\<close> returns the pair (modifiable, reason).
\<close>

record lpar =
  can_modify_io :: "bool \<times> string"

text \<open>
  The exceptions. The constructor arguments are kept, so that what an exception carries
  is part of the value: the source always raises with an empty argument list.
  \<open>Timeout\<close> is \<open>eventlet.timeout.Timeout\<close>; \<open>CollaboratorError\<close> is an exception
  that escapes from \<open>vm.crt_vif\<close>, which \<open>PlugVifs.execute\<close> does not catch.
\<close>

datatype error =
    VirtualInterfaceUnplugException "string list"
  | VirtualInterfaceCreateException "string list"
  | Timeout
  | CollaboratorError

text \<open>The class attribute \<open>msg_fmt\<close> of \<open>VirtualInterfaceUnplugException\<close> (line 39).\<close>

definition msg_fmt :: string where
  "msg_fmt = ''Virtual interface unplug failed''"

text \<open>
  Every call that leaves the task is recorded in a trace, in the order of the calls.
  A log record keeps its level, its message (named after the call site) and the
  arguments that fill the message.
\<close>

datatype level = DEBUG | INFO | WARN | ERROR

datatype message =
    Unplugging              \<comment> \<open>line 63\<close>
  | Unplug_Not_Modifiable   \<comment> \<open>line 70\<close>
  | Deleting_Vif            \<comment> \<open>line 85\<close>
  | Unplug_Failed           \<comment> \<open>line 92\<close>
  | Delete_Error            \<comment> \<open>line 97\<close>
  | Vif_Not_Found           \<comment> \<open>line 104\<close>
  | Plugging                \<comment> \<open>line 137\<close>
  | Plug_Not_Modifiable     \<comment> \<open>line 159\<close>
  | Creating_Vif            \<comment> \<open>line 174\<close>
  | Wait_Timeout            \<comment> \<open>line 182\<close>
  | Callback_Failure        \<comment> \<open>line 191\<close>
  | Plugging_Mgmt           \<comment> \<open>line 240\<close>
  | No_Mgmt_Vswitch         \<comment> \<open>line 246\<close>
  | Mgmt_Already_Created    \<comment> \<open>line 255\<close>

type_synonym event_name = "string \<times> string"

datatype action =
    Log level message "string list"
  | CanModifyIO                          \<comment> \<open>\<open>lpar_wrap.can_modify_io()\<close>\<close>
  | GetCnas                              \<comment> \<open>\<open>vm.get_cnas\<close>\<close>
  | Delete cna                           \<comment> \<open>\<open>cna_w.delete()\<close>\<close>
  | CrtVif vif                           \<comment> \<open>\<open>vm.crt_vif\<close>\<close>
  | WaitForInstanceEvent "event_name list" int
      \<comment> \<open>entering \<open>virt_api.wait_for_instance_event\<close>: the events and the deadline\<close>
  | GetSecureRmcVswitch                  \<comment> \<open>\<open>vm.get_secure_rmc_vswitch\<close>\<close>
  | CrtSecureRmcVif                      \<comment> \<open>\<open>vm.crt_secure_rmc_vif\<close>\<close>

type_synonym 'a outcome = "(error + 'a) \<times> action list"

text \<open>How a registered event ends: it arrives completed, arrives failed, or has not
  arrived when the deadline elapses.\<close>

datatype event_status = Completed | Failed | Never

text \<open>
  What the tasks are constructed with, what the configuration holds and how the
  collaborators answer. \<open>norm_mac\<close> stands for \<open>vm.norm_mac\<close>, \<open>get_cnas\<close> for
  the list \<open>vm.get_cnas\<close> returns, \<open>delete_raises\<close> and \<open>crt_vif_raises\<close> say
  whether \<open>cna_w.delete()\<close> and \<open>vm.crt_vif\<close> raise, \<open>is_neutron\<close> is
  \<open>utils.is_neutron()\<close>, the two \<open>vif_plugging\<close> fields are the options of \<open>CONF\<close>,
  \<open>get_secure_rmc_vswitch\<close> is the result of \<open>vm.get_secure_rmc_vswitch\<close>
  (\<open>None\<close> as in the source), and \<open>mgmt_mac\<close> is the address the hypervisor gives a
  new management adapter.
\<close>

record env =
  norm_mac :: "string \<Rightarrow> string"
  instance_name :: string
  instance_uuid :: string
  network_info :: "vif list"
  get_cnas :: "cna list"
  delete_raises :: "cna \<Rightarrow> bool"
  crt_vif_raises :: "vif \<Rightarrow> bool"
  is_neutron :: bool
  vif_plugging_is_fatal :: bool
  vif_plugging_timeout :: int
  event_status :: "event_name \<Rightarrow> event_status"
  get_secure_rmc_vswitch :: "vswitch option"
  mgmt_mac :: string

definition prepend :: "action list \<Rightarrow> 'a outcome \<Rightarrow> 'a outcome" where
  "prepend tr r = (fst r, tr @ snd r)"

section \<open>UnplugVifs\<close>

text \<open>Lines 82 to 108: the scan of the adapters for one VIF, with its \<open>else\<close> branch.\<close>

fun unplug_vif :: "env \<Rightarrow> vif \<Rightarrow> cna list \<Rightarrow> unit outcome" where
  "unplug_vif env v [] =
     (Inr (), [Log WARN Vif_Not_Found [address v, instance_name env]])"
| "unplug_vif env v (cna_w # rest) =
     (if norm_mac env (mac cna_w) = address v then
        (if delete_raises env cna_w then
           (Inl (VirtualInterfaceUnplugException []),
            [Log INFO Deleting_Vif [address v, instance_name env], Delete cna_w,
             Log ERROR Unplug_Failed [address v, instance_name env],
             Log ERROR Delete_Error []])
         else
           (Inr (), [Log INFO Deleting_Vif [address v, instance_name env], Delete cna_w]))
      else unplug_vif env v rest)"

text \<open>Line 81: the loop over \<open>self.network_info\<close>.\<close>

fun unplug_vifs :: "env \<Rightarrow> vif list \<Rightarrow> cna list \<Rightarrow> unit outcome" where
  "unplug_vifs env [] cna_w_list = (Inr (), [])"
| "unplug_vifs env (v # vs) cna_w_list =
     (case unplug_vif env v cna_w_list of
        (Inl e, tr) \<Rightarrow> (Inl e, tr)
      | (Inr u, tr) \<Rightarrow> prepend tr (unplug_vifs env vs cna_w_list))"

text \<open>Lines 62 to 109.\<close>

definition UnplugVifs_execute :: "env \<Rightarrow> lpar \<Rightarrow> cna list outcome" where
  "UnplugVifs_execute env lpar_wrap =
     (case can_modify_io lpar_wrap of (modifiable, reason) \<Rightarrow>
        if \<not> modifiable then
          (Inl (VirtualInterfaceUnplugException []),
           [Log INFO Unplugging [instance_name env], CanModifyIO,
            Log ERROR Unplug_Not_Modifiable [instance_name env, reason]])
        else
          (case unplug_vifs env (network_info env) (get_cnas env) of
             (Inl e, tr) \<Rightarrow>
               (Inl e, [Log INFO Unplugging [instance_name env], CanModifyIO, GetCnas] @ tr)
           | (Inr u, tr) \<Rightarrow>
               (Inr (get_cnas env),
                [Log INFO Unplugging [instance_name env], CanModifyIO, GetCnas] @ tr)))"

section \<open>PlugVifs\<close>

text \<open>Lines 146 to 148: the scan of the adapters for one VIF; \<open>True\<close> is the \<open>break\<close>.\<close>

fun cna_found :: "env \<Rightarrow> vif \<Rightarrow> cna list \<Rightarrow> bool" where
  "cna_found env v [] = False"
| "cna_found env v (cna_w # rest) =
     (if norm_mac env (mac cna_w) = address v then True else cna_found env v rest)"

text \<open>Lines 144 to 150: \<open>crt_vifs\<close> is the accumulator the loop appends to.\<close>

fun trim_vifs :: "env \<Rightarrow> cna list \<Rightarrow> vif list \<Rightarrow> vif list \<Rightarrow> vif list" where
  "trim_vifs env cna_w_list crt_vifs [] = crt_vifs"
| "trim_vifs env cna_w_list crt_vifs (v # vs) =
     (if cna_found env v cna_w_list then trim_vifs env cna_w_list crt_vifs vs
      else trim_vifs env cna_w_list (crt_vifs @ [v]) vs)"

text \<open>\<open>vif.get('active', True)\<close>.\<close>

definition get_active :: "vif \<Rightarrow> bool" where
  "get_active v = (case active v of None \<Rightarrow> True | Some b \<Rightarrow> b)"

text \<open>Lines 197 to 214.\<close>

definition get_vif_events :: "env \<Rightarrow> event_name list" where
  "get_vif_events env =
     (if is_neutron env \<and> vif_plugging_is_fatal env \<and> vif_plugging_timeout env \<noteq> 0 then
        map (\<lambda>v. (''network-vif-plugged'', vif_id v))
          (filter (\<lambda>v. \<not> get_active v) (network_info env))
      else [])"

text \<open>Lines 190 to 195: the callback returns \<open>None\<close> unless the failure is fatal.\<close>

definition vif_callback_failed :: "env \<Rightarrow> event_name \<Rightarrow> unit outcome" where
  "vif_callback_failed env event_name =
     (if vif_plugging_is_fatal env then
        (Inl (VirtualInterfaceCreateException []),
         [Log ERROR Callback_Failure [fst event_name, snd event_name, instance_uuid env]])
      else
        (Inr (),
         [Log ERROR Callback_Failure [fst event_name, snd event_name, instance_uuid env]]))"

text \<open>Lines 173 to 180: the creations, in the order of \<open>crt_vifs\<close>.\<close>

fun crt_vifs_loop :: "env \<Rightarrow> vif list \<Rightarrow> unit outcome" where
  "crt_vifs_loop env [] = (Inr (), [])"
| "crt_vifs_loop env (v # vs) =
     (if crt_vif_raises env v then
        (Inl CollaboratorError,
         [Log INFO Creating_Vif [address v, instance_name env], CrtVif v])
      else
        prepend [Log INFO Creating_Vif [address v, instance_name env], CrtVif v]
          (crt_vifs_loop env vs))"

text \<open>
  Modelled from the spec: \<open>virt_api.wait_for_instance_event\<close> belongs to Nova and is
  not among the sources. The spec describes it as
  \<open>waitForEvents(eventNames, deadline, onFailure)\<close>, a scoped guard that registers
  interest, blocks at scope exit until every registered event has arrived or the
  deadline elapses, and invokes \<open>onFailure(eventName)\<close> per failed event. The exit is
  \<open>wait_events\<close>: the registered events are awaited in order, a failed one goes to the
  callback (whose exception ends the wait), and one that has not arrived by the
  deadline raises \<open>Timeout\<close>. An exception of the body leaves the scope at once.
\<close>

fun wait_events :: "env \<Rightarrow> (event_name \<Rightarrow> unit outcome) \<Rightarrow> event_name list \<Rightarrow> unit outcome"
  where
  "wait_events env error_callback [] = (Inr (), [])"
| "wait_events env error_callback (e # es) =
     (case event_status env e of
        Completed \<Rightarrow> wait_events env error_callback es
      | Failed \<Rightarrow>
          (case error_callback e of
             (Inl x, tr) \<Rightarrow> (Inl x, tr)
           | (Inr u, tr) \<Rightarrow> prepend tr (wait_events env error_callback es))
      | Never \<Rightarrow> (Inl Timeout, []))"

definition wait_for_instance_event ::
  "env \<Rightarrow> event_name list \<Rightarrow> int \<Rightarrow> (event_name \<Rightarrow> unit outcome) \<Rightarrow> unit outcome \<Rightarrow> unit outcome"
  where
  "wait_for_instance_event env event_names deadline error_callback body =
     prepend [WaitForInstanceEvent event_names deadline]
       (case body of
          (Inl x, tr) \<Rightarrow> (Inl x, tr)
        | (Inr u, tr) \<Rightarrow> prepend tr (wait_events env error_callback event_names))"

text \<open>Lines 136 to 188.\<close>

definition PlugVifs_execute :: "env \<Rightarrow> lpar \<Rightarrow> cna list outcome" where
  "PlugVifs_execute env lpar_wrap =
     (let cna_w_list = get_cnas env;
          crt_vifs = trim_vifs env cna_w_list [] (network_info env)
      in
        if length crt_vifs = 0 then
          (Inr [], [Log INFO Plugging [instance_name env], GetCnas])
        else
          (case can_modify_io lpar_wrap of (modifiable, reason) \<Rightarrow>
             if \<not> modifiable then
               (Inl (VirtualInterfaceCreateException []),
                [Log INFO Plugging [instance_name env], GetCnas, CanModifyIO,
                 Log ERROR Plug_Not_Modifiable [instance_name env, reason]])
             else
               prepend [Log INFO Plugging [instance_name env], GetCnas, CanModifyIO]
                 (case wait_for_instance_event env (get_vif_events env)
                         (vif_plugging_timeout env) (vif_callback_failed env)
                         (crt_vifs_loop env crt_vifs) of
                    (Inl Timeout, tr) \<Rightarrow>
                      (Inl (VirtualInterfaceCreateException []),
                       tr @ [Log ERROR Wait_Timeout [instance_name env]])
                  | (Inl e, tr) \<Rightarrow> (Inl e, tr)
                  | (Inr u, tr) \<Rightarrow> (Inr cna_w_list, tr))))"

section \<open>PlugMgmtVif\<close>

text \<open>Lines 253 to 257: \<open>True\<close> is the \<open>return None\<close> inside the loop.\<close>

fun on_vswitch :: "vswitch \<Rightarrow> cna list \<Rightarrow> bool" where
  "on_vswitch vswitch_w [] = False"
| "on_vswitch vswitch_w (cna_w # rest) =
     (if vswitch_uri cna_w = href vswitch_w then True else on_vswitch vswitch_w rest)"

text \<open>
  Modelled from the spec: \<open>vm.crt_secure_rmc_vif\<close> is defined in
  nova\_powervm/virt/powervm/vm.py, which is not among the sources. The spec gives it as
  \<open>createManagementAdapter(machineRef, ManagementSwitchRef) -> AdapterHandle\<close>,
  "the new management adapter bound to that switch". The source passes the adapter, the
  instance and the host; the switch is the one \<open>vm.get_secure_rmc_vswitch\<close> found.
\<close>

definition crt_secure_rmc_vif :: "env \<Rightarrow> vswitch \<Rightarrow> cna" where
  "crt_secure_rmc_vif env vswitch_w = \<lparr>mac = mgmt_mac env, vswitch_uri = href vswitch_w\<rparr>"

text \<open>Lines 239 to 261.\<close>

definition PlugMgmtVif_execute :: "env \<Rightarrow> cna list \<Rightarrow> cna option \<times> action list" where
  "PlugMgmtVif_execute env vm_cnas =
     (case get_secure_rmc_vswitch env of
        None \<Rightarrow>
          (None, [Log INFO Plugging_Mgmt [instance_name env], GetSecureRmcVswitch,
                  Log DEBUG No_Mgmt_Vswitch [instance_name env]])
      | Some vswitch_w \<Rightarrow>
          if on_vswitch vswitch_w vm_cnas then
            (None, [Log INFO Plugging_Mgmt [instance_name env], GetSecureRmcVswitch,
                    Log DEBUG Mgmt_Already_Created [instance_name env]])
          else
            (Some (crt_secure_rmc_vif env vswitch_w),
             [Log INFO Plugging_Mgmt [instance_name env], GetSecureRmcVswitch,
              CrtSecureRmcVif]))"

section \<open>The address normalisation\<close>

text \<open>
  Modelled from the spec: \<open>vm.norm_mac\<close> is defined in
  nova\_powervm/virt/powervm/vm.py, which is not among the sources. The spec asks for
  "a single pure function \<open>normalize(address) -> canonical-form\<close>" that removes
  "case/format variance", and its scenario matches the live address "AA:BB" with the
  desired address "aa:bb". Here the canonical form is lower case, in pairs of characters
  separated by colons. The operations above take the normalisation from \<open>norm_mac env\<close>;
  this function is the one the concrete inputs below use.
\<close>

definition lower_char :: "char \<Rightarrow> char" where
  "lower_char c =
     (case map_of (zip ''ABCDEFGHIJKLMNOPQRSTUVWXYZ'' ''abcdefghijklmnopqrstuvwxyz'') c of
        None \<Rightarrow> c | Some l \<Rightarrow> l)"

fun pairs :: "string \<Rightarrow> string list" where
  "pairs [] = []"
| "pairs [a] = [[a]]"
| "pairs (a # b # rest) = [a, b] # pairs rest"

fun join_colon :: "string list \<Rightarrow> string" where
  "join_colon [] = []"
| "join_colon [p] = p"
| "join_colon (p # q # ps) = p @ CHR '':'' # join_colon (q # ps)"

definition vm_norm_mac :: "string \<Rightarrow> string" where
  "vm_norm_mac m = join_colon (pairs (filter (\<lambda>c. c \<noteq> CHR '':'') (map lower_char m)))"


section \<open>Reading a trace\<close>

definition creations :: "action list \<Rightarrow> vif list" where
  "creations tr = concat (map (\<lambda>a. case a of CrtVif v \<Rightarrow> [v] | _ \<Rightarrow> []) tr)"

definition deletions :: "action list \<Rightarrow> cna list" where
  "deletions tr = concat (map (\<lambda>a. case a of Delete c \<Rightarrow> [c] | _ \<Rightarrow> []) tr)"

definition waits :: "action list \<Rightarrow> event_name list list" where
  "waits tr = concat (map (\<lambda>a. case a of WaitForInstanceEvent es d \<Rightarrow> [es] | _ \<Rightarrow> []) tr)"

definition mgmt_creations :: "action list \<Rightarrow> nat" where
  "mgmt_creations tr = length (filter (\<lambda>a. a = CrtSecureRmcVif) tr)"

text \<open>
  The calls of \<open>vm.crt_vif\<close> that the loop of lines 173 to 180 issues for a list: one per
  entry, in order, up to and including the first entry whose creation raises.
\<close>

fun issued :: "env \<Rightarrow> vif list \<Rightarrow> vif list" where
  "issued env [] = []"
| "issued env (v # vs) = (if crt_vif_raises env v then [v] else v # issued env vs)"

section \<open>Concrete inputs\<close>

definition vif_aa_bb :: vif where
  "vif_aa_bb = \<lparr>address = ''aa:bb'', vif_id = ''port-1'', active = Some False\<rparr>"

definition vif_cc_dd :: vif where
  "vif_cc_dd = \<lparr>address = ''cc:dd'', vif_id = ''port-2'', active = Some False\<rparr>"

definition vif_upper :: vif where
  "vif_upper = \<lparr>address = ''AA:BB'', vif_id = ''port-3'', active = Some False\<rparr>"

definition vif_no_active :: vif where
  "vif_no_active = \<lparr>address = ''ee:ff'', vif_id = ''port-4'', active = None\<rparr>"

definition cna_AA_BB :: cna where
  "cna_AA_BB = \<lparr>mac = ''AA:BB'', vswitch_uri = ''/vswitch/ETHERNET0''\<rparr>"

definition lpar_ok :: lpar where
  "lpar_ok = \<lparr>can_modify_io = (True, [])\<rparr>"

definition lpar_off :: lpar where
  "lpar_off = \<lparr>can_modify_io = (False, ''LPAR is not in an active state.'')\<rparr>"

text \<open>The scenario of the spec: one live adapter "AA:BB", desired "aa:bb" and "cc:dd";
  Neutron networking, fatal plugging with a timeout of 300 seconds, every event arrives.\<close>

definition env0 :: env where
  "env0 = \<lparr>norm_mac = vm_norm_mac, instance_name = ''inst-1'', instance_uuid = ''uuid-1'',
     network_info = [vif_aa_bb, vif_cc_dd], get_cnas = [cna_AA_BB],
     delete_raises = (\<lambda>c. False), crt_vif_raises = (\<lambda>v. False),
     is_neutron = True, vif_plugging_is_fatal = True, vif_plugging_timeout = 300,
     event_status = (\<lambda>e. Completed),
     get_secure_rmc_vswitch = Some \<lparr>href = ''/vswitch/MGMTSWITCH''\<rparr>,
     mgmt_mac = ''fa:ce:00:00:00:01''\<rparr>"

text \<open>The desired list names "cc:dd" twice; the only live adapter is "AA:BB".\<close>

definition env_dup :: env where
  "env_dup = env0\<lparr>network_info := [vif_cc_dd, vif_cc_dd]\<rparr>"

text \<open>The event of port-2 has not arrived when the deadline elapses.\<close>

definition env_timeout :: env where
  "env_timeout =
     env0\<lparr>event_status :=
       (\<lambda>e. if e = (''network-vif-plugged'', ''port-2'') then Never else Completed)\<rparr>"


text \<open>The host has no management switch.\<close>

definition env_no_mgmt :: env where
  "env_no_mgmt = env0\<lparr>get_secure_rmc_vswitch := None\<rparr>"

definition cna_mgmt :: cna where
  "cna_mgmt = \<lparr>mac = ''fa:ce:00:00:00:02'', vswitch_uri = ''/vswitch/MGMTSWITCH''\<rparr>"

section \<open>Facts about the normalisation and the inputs\<close>

lemma norm_AA_BB: "vm_norm_mac ''AA:BB'' = ''aa:bb''"
  by (simp add: vm_norm_mac_def lower_char_def)

lemma norm_aa_bb: "vm_norm_mac ''aa:bb'' = ''aa:bb''"
  by (simp add: vm_norm_mac_def lower_char_def)

lemma norm_cc_dd: "vm_norm_mac ''cc:dd'' = ''cc:dd''"
  by (simp add: vm_norm_mac_def lower_char_def)

lemmas inputs =
  vif_aa_bb_def vif_cc_dd_def vif_upper_def vif_no_active_def cna_AA_BB_def lpar_ok_def
  lpar_off_def env0_def norm_AA_BB norm_aa_bb norm_cc_dd






section \<open>Facts about the loops\<close>

lemma cna_found_iff:
  "cna_found env v cnas \<longleftrightarrow> (\<exists>c\<in>set cnas. norm_mac env (mac c) = address v)"
  by (induction cnas) auto

lemma trim_vifs_filter:
  "trim_vifs env cnas acc vs = acc @ filter (\<lambda>v. \<not> cna_found env v cnas) vs"
  by (induction vs arbitrary: acc) auto

lemma trim_vifs_unmatched:
  "trim_vifs env cnas [] vs = filter (\<lambda>v. \<forall>c\<in>set cnas. norm_mac env (mac c) \<noteq> address v) vs"
  by (simp add: trim_vifs_filter cna_found_iff)

lemma get_active_False: "\<not> get_active v \<longleftrightarrow> active v = Some False"
  by (simp add: get_active_def split: option.splits)

lemma waits_append: "waits (a @ b) = waits a @ waits b"
  by (simp add: waits_def)

lemma creations_append: "creations (a @ b) = creations a @ creations b"
  by (simp add: creations_def)

lemma deletions_append: "deletions (a @ b) = deletions a @ deletions b"
  by (simp add: deletions_def)

lemma crt_vifs_loop_trace:
  "waits (snd (crt_vifs_loop env vs)) = [] \<and> deletions (snd (crt_vifs_loop env vs)) = []
   \<and> GetCnas \<notin> set (snd (crt_vifs_loop env vs))"
  by (induction vs) (simp_all add: prepend_def waits_def deletions_def)

lemma callback_trace:
  "waits (snd (vif_callback_failed env e)) = [] \<and> deletions (snd (vif_callback_failed env e)) = []
   \<and> creations (snd (vif_callback_failed env e)) = []
   \<and> GetCnas \<notin> set (snd (vif_callback_failed env e))"
  by (simp add: vif_callback_failed_def waits_def deletions_def creations_def)

lemma wait_events_trace:
  "waits (snd (wait_events env (vif_callback_failed env) es)) = []
   \<and> deletions (snd (wait_events env (vif_callback_failed env) es)) = []
   \<and> creations (snd (wait_events env (vif_callback_failed env) es)) = []
   \<and> GetCnas \<notin> set (snd (wait_events env (vif_callback_failed env) es))"
proof (induction es)
  case Nil
  show ?case by (simp add: waits_def deletions_def creations_def)
next
  case (Cons e es)
  show ?case
  proof (cases "event_status env e")
    case Completed
    with Cons show ?thesis by simp
  next
    case Failed
    obtain r tr where cb: "vif_callback_failed env e = (r, tr)"
      by (cases "vif_callback_failed env e")
    with callback_trace [of env e]
    have tr: "waits tr = []" "deletions tr = []" "creations tr = []" "GetCnas \<notin> set tr"
      by simp_all
    show ?thesis
    proof (cases r)
      case (Inl x)
      with Failed cb tr show ?thesis by simp
    next
      case (Inr u)
      with Failed cb tr Cons show ?thesis
        by (simp add: prepend_def waits_append deletions_append creations_append)
    qed
  next
    case Never
    then show ?thesis by (simp add: waits_def deletions_def creations_def)
  qed
qed

section \<open>The claims\<close>

text \<open>
  C2, as the code has it. \<open>PlugVifs.execute\<close> keeps, in the order of the desired list,
  exactly the interfaces whose address, as supplied, is the normalised address of no live
  adapter: only the adapter's address goes through \<open>norm_mac\<close> (line 147). No interface
  kept has such an adapter. Where every desired address is already in normalised form,
  this is the comparison of normalised addresses on both sides.
\<close>

theorem trim_vifs_spec:
  "trim_vifs env A [] D = filter (\<lambda>v. \<forall>c\<in>set A. norm_mac env (mac c) \<noteq> address v) D
   \<and> (\<forall>v\<in>set (trim_vifs env A [] D). \<forall>c\<in>set A. norm_mac env (mac c) \<noteq> address v)
   \<and> ((\<forall>v\<in>set D. norm_mac env (address v) = address v) \<longrightarrow>
        trim_vifs env A [] D =
          filter (\<lambda>v. \<forall>c\<in>set A. norm_mac env (mac c) \<noteq> norm_mac env (address v)) D)"
proof (intro conjI impI)
  show eq: "trim_vifs env A [] D = filter (\<lambda>v. \<forall>c\<in>set A. norm_mac env (mac c) \<noteq> address v) D"
    by (rule trim_vifs_unmatched)
  show "\<forall>v\<in>set (trim_vifs env A [] D). \<forall>c\<in>set A. norm_mac env (mac c) \<noteq> address v"
    by (simp add: eq)
  assume "\<forall>v\<in>set D. norm_mac env (address v) = address v"
  then show "trim_vifs env A [] D =
      filter (\<lambda>v. \<forall>c\<in>set A. norm_mac env (mac c) \<noteq> norm_mac env (address v)) D"
    unfolding eq by (intro filter_cong) simp_all
qed

text \<open>The scenario of the spec: "aa:bb" has the live adapter "AA:BB", "cc:dd" is kept.\<close>

theorem trim_vifs_spec_witness:
  "norm_mac env0 (address vif_aa_bb) = address vif_aa_bb
   \<and> norm_mac env0 (address vif_cc_dd) = address vif_cc_dd
   \<and> norm_mac env0 (mac cna_AA_BB) = address vif_aa_bb
   \<and> trim_vifs env0 [cna_AA_BB] [] [vif_aa_bb, vif_cc_dd] = [vif_cc_dd]
   \<and> filter (\<lambda>v. \<forall>c\<in>set [cna_AA_BB]. norm_mac env0 (mac c) \<noteq> norm_mac env0 (address v))
         [vif_aa_bb, vif_cc_dd] = [vif_cc_dd]"
  using trim_vifs_spec [of env0 "[cna_AA_BB]" "[vif_aa_bb, vif_cc_dd]"]
  by (simp add: inputs)

text \<open>
  C2 as stated fails: the desired address "AA:BB" and the live adapter "AA:BB" have the
  same normalised address, and the interface is still kept for creation.
\<close>

theorem trim_vifs_counterexample:
  "norm_mac env0 (mac cna_AA_BB) = norm_mac env0 (address vif_upper)
   \<and> trim_vifs env0 [cna_AA_BB] [] [vif_upper] = [vif_upper]"
  by (simp add: inputs)

subsection \<open>The trace of the plug operation\<close>

lemma wait_scope_trace:
  "waits (snd (wait_for_instance_event env es d (vif_callback_failed env) (crt_vifs_loop env vs))) = [es]
   \<and> deletions (snd (wait_for_instance_event env es d (vif_callback_failed env) (crt_vifs_loop env vs))) = []
   \<and> creations (snd (wait_for_instance_event env es d (vif_callback_failed env) (crt_vifs_loop env vs)))
       = creations (snd (crt_vifs_loop env vs))
   \<and> GetCnas \<notin> set (snd (wait_for_instance_event env es d (vif_callback_failed env) (crt_vifs_loop env vs)))"
proof -
  obtain r tr where body: "crt_vifs_loop env vs = (r, tr)" by (cases "crt_vifs_loop env vs")
  with crt_vifs_loop_trace [of env vs]
  have tr: "waits tr = []" "deletions tr = []" "GetCnas \<notin> set tr" by simp_all
  have hd: "waits [WaitForInstanceEvent es d] = [es]" "deletions [WaitForInstanceEvent es d] = []"
    "creations [WaitForInstanceEvent es d] = []"
    by (simp_all add: waits_def deletions_def creations_def)
  show ?thesis
  proof (cases r)
    case (Inl x)
    with body tr hd show ?thesis
      by (simp add: wait_for_instance_event_def prepend_def waits_def deletions_def creations_def)
  next
    case (Inr u)
    with body tr hd wait_events_trace [of env es] show ?thesis
      by (simp add: wait_for_instance_event_def prepend_def waits_def deletions_def creations_def)
  qed
qed

lemma plug_trace:
  assumes "trim_vifs env (get_cnas env) [] (network_info env) \<noteq> []"
    and "fst (can_modify_io lpar_wrap)"
  shows "\<exists>suffix. snd (PlugVifs_execute env lpar_wrap) =
      [Log INFO Plugging [instance_name env], GetCnas, CanModifyIO]
      @ snd (wait_for_instance_event env (get_vif_events env) (vif_plugging_timeout env)
               (vif_callback_failed env)
               (crt_vifs_loop env (trim_vifs env (get_cnas env) [] (network_info env))))
      @ suffix
    \<and> (suffix = [] \<or> suffix = [Log ERROR Wait_Timeout [instance_name env]])"
proof -
  let ?w = "wait_for_instance_event env (get_vif_events env) (vif_plugging_timeout env)
               (vif_callback_failed env)
               (crt_vifs_loop env (trim_vifs env (get_cnas env) [] (network_info env)))"
  obtain r tr where w: "?w = (r, tr)" by (cases ?w)
  obtain m reason where c: "can_modify_io lpar_wrap = (m, reason)" by (cases "can_modify_io lpar_wrap")
  with assms have m: "m" by simp
  show ?thesis
  proof (cases r)
    case (Inl x)
    with assms(1) w c m show ?thesis
      by (cases x) (simp_all add: PlugVifs_execute_def Let_def prepend_def)
  next
    case (Inr u)
    with assms(1) w c m show ?thesis
      by (simp add: PlugVifs_execute_def Let_def prepend_def)
  qed
qed

text \<open>
  C1, as the code has it. The wait set is built from the whole desired list
  \<open>self.network_info\<close>, not from the interfaces kept for creation: when Neutron is in
  use, plugging is fatal and the timeout is not zero, it holds one entry
  \<open>('network-vif-plugged', id)\<close> for each desired interface whose \<open>active\<close> value is
  present and false, in the order of the list; otherwise it is empty. \<open>execute\<close>
  registers this set once when some interface is kept for creation and the machine can be
  modified, and registers nothing in every other case.
\<close>

theorem get_vif_events_spec:
  "get_vif_events env =
     (if is_neutron env \<and> vif_plugging_is_fatal env \<and> vif_plugging_timeout env \<noteq> 0
      then map (\<lambda>v. (''network-vif-plugged'', vif_id v))
             (filter (\<lambda>v. active v = Some False) (network_info env))
      else [])
   \<and> waits (snd (PlugVifs_execute env lpar_wrap)) =
       (if trim_vifs env (get_cnas env) [] (network_info env) \<noteq> [] \<and> fst (can_modify_io lpar_wrap)
        then [get_vif_events env] else [])"
proof (intro conjI)
  show "get_vif_events env =
     (if is_neutron env \<and> vif_plugging_is_fatal env \<and> vif_plugging_timeout env \<noteq> 0
      then map (\<lambda>v. (''network-vif-plugged'', vif_id v))
             (filter (\<lambda>v. active v = Some False) (network_info env))
      else [])"
    by (simp add: get_vif_events_def get_active_False)
next
  show "waits (snd (PlugVifs_execute env lpar_wrap)) =
       (if trim_vifs env (get_cnas env) [] (network_info env) \<noteq> [] \<and> fst (can_modify_io lpar_wrap)
        then [get_vif_events env] else [])"
  proof (cases "trim_vifs env (get_cnas env) [] (network_info env) = []")
    case True
    then show ?thesis by (simp add: PlugVifs_execute_def Let_def waits_def)
  next
    case crt: False
    show ?thesis
    proof (cases "fst (can_modify_io lpar_wrap)")
      case False
      with crt show ?thesis
        by (cases "can_modify_io lpar_wrap") (simp add: PlugVifs_execute_def Let_def waits_def)
    next
      case True
      with crt obtain suffix where
        tr: "snd (PlugVifs_execute env lpar_wrap) =
          [Log INFO Plugging [instance_name env], GetCnas, CanModifyIO]
          @ snd (wait_for_instance_event env (get_vif_events env) (vif_plugging_timeout env)
                   (vif_callback_failed env)
                   (crt_vifs_loop env (trim_vifs env (get_cnas env) [] (network_info env))))
          @ suffix"
        and s: "suffix = [] \<or> suffix = [Log ERROR Wait_Timeout [instance_name env]]"
        using plug_trace [of env lpar_wrap] by blast
      have "waits suffix = []" using s by (auto simp: waits_def)
      moreover have "waits [Log INFO Plugging [instance_name env], GetCnas, CanModifyIO] = []"
        by (simp add: waits_def)
      ultimately have "waits (snd (PlugVifs_execute env lpar_wrap)) = [get_vif_events env]"
        unfolding tr waits_append using wait_scope_trace by simp
      with crt True show ?thesis by simp
    qed
  qed
qed

text \<open>The scenario input: only "cc:dd" is kept for creation, both events are registered.\<close>

lemma trim_env0: "trim_vifs env0 (get_cnas env0) [] (network_info env0) = [vif_cc_dd]"
  by (simp add: inputs)

lemma events_env0:
  "get_vif_events env0 = [(''network-vif-plugged'', ''port-1''), (''network-vif-plugged'', ''port-2'')]"
  by (simp add: get_vif_events_def get_active_def inputs)

theorem get_vif_events_spec_witness:
  "trim_vifs env0 (get_cnas env0) [] (network_info env0) = [vif_cc_dd]
   \<and> fst (can_modify_io lpar_ok)
   \<and> waits (snd (PlugVifs_execute env0 lpar_ok)) =
       [[(''network-vif-plugged'', ''port-1''), (''network-vif-plugged'', ''port-2'')]]
   \<and> \<not> fst (can_modify_io lpar_off)
   \<and> waits (snd (PlugVifs_execute env0 lpar_off)) = []"
proof -
  have m: "fst (can_modify_io lpar_ok)" by (simp add: lpar_ok_def)
  have n: "\<not> fst (can_modify_io lpar_off)" by (simp add: lpar_off_def)
  have nz: "trim_vifs env0 (get_cnas env0) [] (network_info env0) \<noteq> []"
    using trim_env0 by simp
  from get_vif_events_spec [of env0 lpar_ok] nz m
  have "waits (snd (PlugVifs_execute env0 lpar_ok)) = [get_vif_events env0]" by simp
  then have r1: "waits (snd (PlugVifs_execute env0 lpar_ok)) =
       [[(''network-vif-plugged'', ''port-1''), (''network-vif-plugged'', ''port-2'')]]"
    unfolding events_env0 .
  from get_vif_events_spec [of env0 lpar_off] n
  have r2: "waits (snd (PlugVifs_execute env0 lpar_off)) = []" by simp
  from trim_env0 m r1 n r2 show ?thesis by blast
qed

text \<open>
  C1 as stated fails twice. In the scenario, "aa:bb" (port-1) already has its adapter and
  is not kept for creation, and its event is registered all the same. Without Neutron,
  "cc:dd" is kept for creation with \<open>active\<close> false, and nothing is registered.
\<close>

theorem get_vif_events_counterexample:
  "trim_vifs env0 (get_cnas env0) [] (network_info env0) = [vif_cc_dd]
   \<and> vif_id vif_aa_bb = ''port-1''
   \<and> get_vif_events env0 =
       [(''network-vif-plugged'', ''port-1''), (''network-vif-plugged'', ''port-2'')]
   \<and> active vif_cc_dd = Some False
   \<and> trim_vifs (env0\<lparr>is_neutron := False\<rparr>) (get_cnas env0) [] (network_info env0) = [vif_cc_dd]
   \<and> get_vif_events (env0\<lparr>is_neutron := False\<rparr>) = []"
  by (simp add: get_vif_events_def get_active_def inputs)

text \<open>
  C10. A desired interface without the \<open>active\<close> key adds nothing to the wait set:
  the set is the one computed for the list without that interface, whatever the
  configuration.
\<close>

theorem absent_active_no_event:
  "active v = None \<Longrightarrow>
     get_vif_events (env\<lparr>network_info := vs @ v # ws\<rparr>)
       = get_vif_events (env\<lparr>network_info := vs @ ws\<rparr>)"
  by (simp add: get_vif_events_def get_active_def)

text \<open>With Neutron, fatal plugging and a timeout: only the event of "cc:dd" is registered.\<close>

theorem absent_active_no_event_witness:
  "active vif_no_active = None
   \<and> is_neutron env0 \<and> vif_plugging_is_fatal env0 \<and> vif_plugging_timeout env0 = 300
   \<and> get_vif_events (env0\<lparr>network_info := [vif_cc_dd] @ vif_no_active # []\<rparr>)
       = [(''network-vif-plugged'', ''port-2'')]"
  using absent_active_no_event [where v = vif_no_active and env = env0 and vs = "[vif_cc_dd]" and ws = "[]"]
  by (simp add: get_vif_events_def get_active_def inputs)

subsection \<open>The result of the plug operation\<close>

lemma crt_vifs_loop_ok:
  "\<forall>v\<in>set vs. \<not> crt_vif_raises env v \<Longrightarrow>
     fst (crt_vifs_loop env vs) = Inr () \<and> creations (snd (crt_vifs_loop env vs)) = vs"
  by (induction vs) (simp_all add: prepend_def creations_def)

lemma crt_vifs_loop_fail:
  "\<exists>v\<in>set vs. crt_vif_raises env v \<Longrightarrow> fst (crt_vifs_loop env vs) = Inl CollaboratorError"
  by (induction vs) (auto simp: prepend_def)

lemma wait_events_ok:
  "\<forall>e\<in>set es. event_status env e = Completed \<Longrightarrow> wait_events env cb es = (Inr (), [])"
  by (induction es) simp_all

lemma wait_events_fatal:
  "vif_plugging_is_fatal env \<Longrightarrow> \<exists>e\<in>set es. event_status env e \<noteq> Completed \<Longrightarrow>
     fst (wait_events env (vif_callback_failed env) es) = Inl Timeout
     \<or> fst (wait_events env (vif_callback_failed env) es) = Inl (VirtualInterfaceCreateException [])"
proof (induction es)
  case Nil
  then show ?case by simp
next
  case (Cons e es)
  show ?case
  proof (cases "event_status env e")
    case Completed
    with Cons show ?thesis by simp
  next
    case Failed
    with Cons.prems(1) show ?thesis by (simp add: vif_callback_failed_def)
  next
    case Never
    then show ?thesis by simp
  qed
qed

lemma events_need_fatal: "get_vif_events env \<noteq> [] \<Longrightarrow> vif_plugging_is_fatal env"
  by (simp add: get_vif_events_def split: if_splits)

lemma plug_result:
  assumes crt: "trim_vifs env (get_cnas env) [] (network_info env) \<noteq> []"
  shows "fst (PlugVifs_execute env lpar_wrap) =
     (if \<not> fst (can_modify_io lpar_wrap) then Inl (VirtualInterfaceCreateException [])
      else if \<exists>v\<in>set (trim_vifs env (get_cnas env) [] (network_info env)). crt_vif_raises env v
        then Inl CollaboratorError
      else if \<forall>e\<in>set (get_vif_events env). event_status env e = Completed
        then Inr (get_cnas env)
      else Inl (VirtualInterfaceCreateException []))"
proof -
  let ?crt = "trim_vifs env (get_cnas env) [] (network_info env)"
  obtain m reason where c: "can_modify_io lpar_wrap = (m, reason)"
    by (cases "can_modify_io lpar_wrap")
  obtain br btr where body: "crt_vifs_loop env ?crt = (br, btr)"
    by (cases "crt_vifs_loop env ?crt")
  obtain wr wtr where w: "wait_events env (vif_callback_failed env) (get_vif_events env) = (wr, wtr)"
    by (cases "wait_events env (vif_callback_failed env) (get_vif_events env)")
  show ?thesis
  proof (cases m)
    case False
    with crt c show ?thesis by (simp add: PlugVifs_execute_def Let_def)
  next
    case True
    note m = this
    show ?thesis
    proof (cases "\<exists>v\<in>set ?crt. crt_vif_raises env v")
      case True
      with crt_vifs_loop_fail [of ?crt env] body have "br = Inl CollaboratorError" by simp
      with crt c m body True show ?thesis
        by (simp add: PlugVifs_execute_def Let_def wait_for_instance_event_def prepend_def)
    next
      case False
      with crt_vifs_loop_ok [of ?crt env] body have br: "br = Inr ()" by simp
      show ?thesis
      proof (cases "\<forall>e\<in>set (get_vif_events env). event_status env e = Completed")
        case True
        with wait_events_ok [of "get_vif_events env" env "vif_callback_failed env"] w
        have "wr = Inr ()" by simp
        with crt c m body br w True False show ?thesis
          by (simp add: PlugVifs_execute_def Let_def wait_for_instance_event_def prepend_def)
      next
        case nc: False
        then have "get_vif_events env \<noteq> []" by auto
        then have "vif_plugging_is_fatal env" by (rule events_need_fatal)
        with wait_events_fatal [of env "get_vif_events env"] nc w
        have "wr = Inl Timeout \<or> wr = Inl (VirtualInterfaceCreateException [])" by auto
        with crt c m body br w nc False show ?thesis
          by (auto simp: PlugVifs_execute_def Let_def wait_for_instance_event_def prepend_def)
      qed
    qed
  qed
qed

lemma plug_nothing:
  "trim_vifs env (get_cnas env) [] (network_info env) = [] \<Longrightarrow>
     PlugVifs_execute env lpar_wrap = (Inr [], [Log INFO Plugging [instance_name env], GetCnas])"
  by (simp add: PlugVifs_execute_def Let_def)

lemma plug_not_modifiable:
  "trim_vifs env (get_cnas env) [] (network_info env) \<noteq> [] \<Longrightarrow> \<not> fst (can_modify_io lpar_wrap) \<Longrightarrow>
     PlugVifs_execute env lpar_wrap =
       (Inl (VirtualInterfaceCreateException []),
        [Log INFO Plugging [instance_name env], GetCnas, CanModifyIO,
         Log ERROR Plug_Not_Modifiable [instance_name env, snd (can_modify_io lpar_wrap)]])"
  by (cases "can_modify_io lpar_wrap") (simp add: PlugVifs_execute_def Let_def)

lemma plug_modifiable_trace:
  assumes "trim_vifs env (get_cnas env) [] (network_info env) \<noteq> []"
    and "fst (can_modify_io lpar_wrap)"
  shows "waits (snd (PlugVifs_execute env lpar_wrap)) = [get_vif_events env]"
    and "deletions (snd (PlugVifs_execute env lpar_wrap)) = []"
    and "creations (snd (PlugVifs_execute env lpar_wrap)) =
          creations (snd (crt_vifs_loop env (trim_vifs env (get_cnas env) [] (network_info env))))"
    and "\<exists>tr. snd (PlugVifs_execute env lpar_wrap) =
            Log INFO Plugging [instance_name env] # GetCnas # tr \<and> GetCnas \<notin> set tr"
proof -
  obtain suffix where
    tr: "snd (PlugVifs_execute env lpar_wrap) =
      [Log INFO Plugging [instance_name env], GetCnas, CanModifyIO]
      @ snd (wait_for_instance_event env (get_vif_events env) (vif_plugging_timeout env)
               (vif_callback_failed env)
               (crt_vifs_loop env (trim_vifs env (get_cnas env) [] (network_info env))))
      @ suffix"
    and s: "suffix = [] \<or> suffix = [Log ERROR Wait_Timeout [instance_name env]]"
    using plug_trace [OF assms] by blast
  have suf: "waits suffix = []" "deletions suffix = []" "creations suffix = []" "GetCnas \<notin> set suffix"
    using s by (auto simp: waits_def deletions_def creations_def)
  have pre: "waits [Log INFO Plugging [instance_name env], GetCnas, CanModifyIO] = []"
    "deletions [Log INFO Plugging [instance_name env], GetCnas, CanModifyIO] = []"
    "creations [Log INFO Plugging [instance_name env], GetCnas, CanModifyIO] = []"
    by (simp_all add: waits_def deletions_def creations_def)
  show "waits (snd (PlugVifs_execute env lpar_wrap)) = [get_vif_events env]"
    unfolding tr waits_append using wait_scope_trace suf pre by simp
  show "deletions (snd (PlugVifs_execute env lpar_wrap)) = []"
    unfolding tr deletions_append using wait_scope_trace suf pre by simp
  show "creations (snd (PlugVifs_execute env lpar_wrap)) =
          creations (snd (crt_vifs_loop env (trim_vifs env (get_cnas env) [] (network_info env))))"
    unfolding tr creations_append using wait_scope_trace suf pre by simp
  show "\<exists>tr. snd (PlugVifs_execute env lpar_wrap) =
            Log INFO Plugging [instance_name env] # GetCnas # tr \<and> GetCnas \<notin> set tr"
    unfolding tr using wait_scope_trace suf by simp
qed

text \<open>
  C3. When nothing is kept for creation, \<open>PlugVifs.execute\<close> returns the empty list,
  and its only calls are the opening log record and the fetch of the adapters: no
  \<open>can_modify_io\<close>, no wait, no creation. When something is kept for creation, every
  list it returns is the one fetched at entry, and it returns that list exactly when the
  machine can be modified, no creation raises and every registered event arrives
  completed; the adapters are fetched once, before every other call of the collaborators.
\<close>

theorem PlugVifs_execute_returns:
  "(trim_vifs env (get_cnas env) [] (network_info env) = [] \<longrightarrow>
      PlugVifs_execute env lpar_wrap = (Inr [], [Log INFO Plugging [instance_name env], GetCnas]))
   \<and> (trim_vifs env (get_cnas env) [] (network_info env) \<noteq> [] \<longrightarrow>
        (fst (PlugVifs_execute env lpar_wrap) = Inr (get_cnas env) \<longleftrightarrow>
           fst (can_modify_io lpar_wrap)
           \<and> (\<forall>v\<in>set (trim_vifs env (get_cnas env) [] (network_info env)). \<not> crt_vif_raises env v)
           \<and> (\<forall>e\<in>set (get_vif_events env). event_status env e = Completed))
        \<and> (\<forall>r. fst (PlugVifs_execute env lpar_wrap) = Inr r \<longrightarrow> r = get_cnas env)
        \<and> (\<exists>tr. snd (PlugVifs_execute env lpar_wrap) =
               Log INFO Plugging [instance_name env] # GetCnas # tr \<and> GetCnas \<notin> set tr))"
proof (intro conjI impI)
  assume "trim_vifs env (get_cnas env) [] (network_info env) = []"
  then show "PlugVifs_execute env lpar_wrap =
      (Inr [], [Log INFO Plugging [instance_name env], GetCnas])"
    by (rule plug_nothing)
next
  assume crt: "trim_vifs env (get_cnas env) [] (network_info env) \<noteq> []"
  show "fst (PlugVifs_execute env lpar_wrap) = Inr (get_cnas env) \<longleftrightarrow>
           fst (can_modify_io lpar_wrap)
           \<and> (\<forall>v\<in>set (trim_vifs env (get_cnas env) [] (network_info env)). \<not> crt_vif_raises env v)
           \<and> (\<forall>e\<in>set (get_vif_events env). event_status env e = Completed)"
    unfolding plug_result [OF crt] by simp
  show "\<forall>r. fst (PlugVifs_execute env lpar_wrap) = Inr r \<longrightarrow> r = get_cnas env"
    unfolding plug_result [OF crt] by (simp split: if_splits)
  show "\<exists>tr. snd (PlugVifs_execute env lpar_wrap) =
               Log INFO Plugging [instance_name env] # GetCnas # tr \<and> GetCnas \<notin> set tr"
  proof (cases "fst (can_modify_io lpar_wrap)")
    case True
    with crt show ?thesis by (rule plug_modifiable_trace(4))
  next
    case False
    with crt show ?thesis by (simp add: plug_not_modifiable)
  qed
qed

text \<open>The scenario input returns the adapter "AA:BB"; with only "aa:bb" desired it returns the
  empty list.\<close>

lemma events_completed_env0: "event_status env0 e = Completed"
  by (simp add: env0_def)

lemma no_crt_raise_env0: "crt_vif_raises env0 v = False"
  by (simp add: env0_def)

theorem PlugVifs_execute_returns_witness:
  "trim_vifs env0 (get_cnas env0) [] (network_info env0) = [vif_cc_dd]
   \<and> fst (can_modify_io lpar_ok)
   \<and> fst (PlugVifs_execute env0 lpar_ok) = Inr [cna_AA_BB]
   \<and> trim_vifs (env0\<lparr>network_info := [vif_aa_bb]\<rparr>) (get_cnas env0) [] [vif_aa_bb] = []
   \<and> PlugVifs_execute (env0\<lparr>network_info := [vif_aa_bb]\<rparr>) lpar_ok =
       (Inr [], [Log INFO Plugging [''inst-1''], GetCnas])"
proof -
  let ?env1 = "env0\<lparr>network_info := [vif_aa_bb]\<rparr>"
  have a: "trim_vifs env0 (get_cnas env0) [] (network_info env0) = [vif_cc_dd]"
    by (rule trim_env0)
  then have nz: "trim_vifs env0 (get_cnas env0) [] (network_info env0) \<noteq> []" by simp
  have b: "fst (can_modify_io lpar_ok)" by (simp add: lpar_ok_def)
  have c: "trim_vifs ?env1 (get_cnas env0) [] [vif_aa_bb] = []"
    by (simp add: inputs)
  then have c': "trim_vifs ?env1 (get_cnas ?env1) [] (network_info ?env1) = []" by simp
  have d: "get_cnas env0 = [cna_AA_BB]" "instance_name ?env1 = ''inst-1''"
    by (simp_all add: env0_def)
  have ok: "\<forall>v\<in>set (trim_vifs env0 (get_cnas env0) [] (network_info env0)). \<not> crt_vif_raises env0 v"
    "\<forall>e\<in>set (get_vif_events env0). event_status env0 e = Completed"
    by (simp_all add: events_completed_env0 no_crt_raise_env0)
  from PlugVifs_execute_returns [of env0 lpar_ok] nz b ok
  have r1: "fst (PlugVifs_execute env0 lpar_ok) = Inr (get_cnas env0)" by blast
  from PlugVifs_execute_returns [of ?env1 lpar_ok] c'
  have r2: "PlugVifs_execute ?env1 lpar_ok = (Inr [], [Log INFO Plugging [instance_name ?env1], GetCnas])"
    by blast
  from a b c r1 r2 show ?thesis unfolding d by blast
qed

text \<open>
  C4. When \<open>can_modify_io\<close> reports that the machine cannot be modified, the unplug
  operation raises \<open>VirtualInterfaceUnplugException\<close>, the plug operation with something
  to create raises \<open>VirtualInterfaceCreateException\<close>, and neither trace holds a creation
  or a deletion.
\<close>

theorem not_modifiable_no_mutation:
  "\<not> fst (can_modify_io lpar_wrap) \<Longrightarrow>
     fst (UnplugVifs_execute env lpar_wrap) = Inl (VirtualInterfaceUnplugException [])
     \<and> creations (snd (UnplugVifs_execute env lpar_wrap)) = []
     \<and> deletions (snd (UnplugVifs_execute env lpar_wrap)) = []
     \<and> (trim_vifs env (get_cnas env) [] (network_info env) \<noteq> [] \<longrightarrow>
          fst (PlugVifs_execute env lpar_wrap) = Inl (VirtualInterfaceCreateException [])
          \<and> creations (snd (PlugVifs_execute env lpar_wrap)) = []
          \<and> deletions (snd (PlugVifs_execute env lpar_wrap)) = [])"
  by (cases "can_modify_io lpar_wrap")
     (simp add: UnplugVifs_execute_def plug_not_modifiable creations_def deletions_def)

text \<open>The scenario input on a machine that is not active.\<close>

theorem not_modifiable_no_mutation_witness:
  "\<not> fst (can_modify_io lpar_off)
   \<and> trim_vifs env0 (get_cnas env0) [] (network_info env0) = [vif_cc_dd]
   \<and> fst (UnplugVifs_execute env0 lpar_off) = Inl (VirtualInterfaceUnplugException [])
   \<and> deletions (snd (UnplugVifs_execute env0 lpar_off)) = []
   \<and> fst (PlugVifs_execute env0 lpar_off) = Inl (VirtualInterfaceCreateException [])
   \<and> creations (snd (PlugVifs_execute env0 lpar_off)) = []"
proof -
  have a: "\<not> fst (can_modify_io lpar_off)" by (simp add: lpar_off_def)
  have b: "trim_vifs env0 (get_cnas env0) [] (network_info env0) = [vif_cc_dd]"
    by (rule trim_env0)
  then have nz: "trim_vifs env0 (get_cnas env0) [] (network_info env0) \<noteq> []" by simp
  from not_modifiable_no_mutation [OF a, of env0] nz a b show ?thesis by blast
qed

text \<open>
  C5, as the code has it. When the machine cannot be modified, \<open>UnplugVifs.execute\<close>
  raises \<open>VirtualInterfaceUnplugException\<close> built without arguments, after writing the
  reason the machine reports to the error log; it makes no other call: the adapters are not
  fetched and nothing is deleted.
\<close>

theorem unplug_not_modifiable:
  "\<not> fst (can_modify_io lpar_wrap) \<Longrightarrow>
     UnplugVifs_execute env lpar_wrap =
       (Inl (VirtualInterfaceUnplugException []),
        [Log INFO Unplugging [instance_name env], CanModifyIO,
         Log ERROR Unplug_Not_Modifiable [instance_name env, snd (can_modify_io lpar_wrap)]])"
  by (cases "can_modify_io lpar_wrap") (simp add: UnplugVifs_execute_def)

text \<open>A machine that is not active: the reason is in the log record.\<close>

theorem unplug_not_modifiable_witness:
  "\<not> fst (can_modify_io lpar_off)
   \<and> UnplugVifs_execute env0 lpar_off =
       (Inl (VirtualInterfaceUnplugException []),
        [Log INFO Unplugging [''inst-1''], CanModifyIO,
         Log ERROR Unplug_Not_Modifiable [''inst-1'', ''LPAR is not in an active state.'']])"
proof -
  have a: "\<not> fst (can_modify_io lpar_off)" by (simp add: lpar_off_def)
  have b: "instance_name env0 = ''inst-1''" by (simp add: env0_def)
  have c: "snd (can_modify_io lpar_off) = ''LPAR is not in an active state.''"
    by (simp add: lpar_off_def)
  from unplug_not_modifiable [OF a, of env0] a show ?thesis unfolding b c by blast
qed

text \<open>
  C5 as stated fails: the exception raised for the reason "LPAR is not in an active state."
  has no argument, its message format is not that reason, and the exception raised for
  another reason is the same value.
\<close>

theorem unplug_exception_counterexample:
  "fst (UnplugVifs_execute env0 lpar_off) = Inl (VirtualInterfaceUnplugException [])
   \<and> snd (can_modify_io lpar_off) = ''LPAR is not in an active state.''
   \<and> msg_fmt \<noteq> ''LPAR is not in an active state.''
   \<and> fst (UnplugVifs_execute env0 (lpar_off\<lparr>can_modify_io := (False, ''RMC is inactive.'')\<rparr>))
       = fst (UnplugVifs_execute env0 lpar_off)"
  by (simp add: UnplugVifs_execute_def lpar_off_def msg_fmt_def)

subsection \<open>The unplug loop\<close>







subsection \<open>The creations of the plug operation\<close>

lemma plug_creations:
  assumes m: "fst (can_modify_io lpar_wrap)"
    and ok: "\<forall>v\<in>set (network_info env). \<not> crt_vif_raises env v"
  shows "creations (snd (PlugVifs_execute env lpar_wrap)) =
     filter (\<lambda>v. \<forall>c\<in>set (get_cnas env). norm_mac env (mac c) \<noteq> address v) (network_info env)"
proof (cases "trim_vifs env (get_cnas env) [] (network_info env) = []")
  case True
  then show ?thesis
    using trim_vifs_unmatched [of env "get_cnas env" "network_info env"]
    by (simp add: plug_nothing creations_def)
next
  case False
  have "\<forall>v\<in>set (trim_vifs env (get_cnas env) [] (network_info env)). \<not> crt_vif_raises env v"
    using ok by (simp add: trim_vifs_unmatched)
  then have "creations (snd (crt_vifs_loop env (trim_vifs env (get_cnas env) [] (network_info env))))
      = trim_vifs env (get_cnas env) [] (network_info env)"
    using crt_vifs_loop_ok by blast
  with plug_modifiable_trace(3) [OF False m] show ?thesis
    by (simp add: trim_vifs_unmatched)
qed

lemma crt_vifs_loop_issued: "creations (snd (crt_vifs_loop env vs)) = issued env vs"
  by (induction vs) (simp_all add: prepend_def creations_def)

lemma issued_all: "\<forall>v\<in>set vs. \<not> crt_vif_raises env v \<Longrightarrow> issued env vs = vs"
  by (induction vs) simp_all

lemma plug_creations_issued:
  "creations (snd (PlugVifs_execute env lpar_wrap)) =
     (if fst (can_modify_io lpar_wrap)
      then issued env (trim_vifs env (get_cnas env) [] (network_info env)) else [])"
proof (cases "trim_vifs env (get_cnas env) [] (network_info env) = []")
  case True
  then show ?thesis by (simp add: plug_nothing creations_def)
next
  case crt: False
  show ?thesis
  proof (cases "fst (can_modify_io lpar_wrap)")
    case True
    with plug_modifiable_trace(3) [OF crt True] show ?thesis
      by (simp add: crt_vifs_loop_issued)
  next
    case False
    with crt show ?thesis by (simp add: plug_not_modifiable creations_def)
  qed
qed

lemma plug_fetches_once:
  "\<exists>tr. snd (PlugVifs_execute env lpar_wrap) =
     Log INFO Plugging [instance_name env] # GetCnas # tr \<and> GetCnas \<notin> set tr"
proof (cases "trim_vifs env (get_cnas env) [] (network_info env) = []")
  case True
  then show ?thesis by (simp add: plug_nothing)
next
  case crt: False
  show ?thesis
  proof (cases "fst (can_modify_io lpar_wrap)")
    case True
    with crt show ?thesis by (rule plug_modifiable_trace(4))
  next
    case False
    with crt show ?thesis by (simp add: plug_not_modifiable)
  qed
qed

text \<open>
  C7, as the code has it. \<open>PlugVifs.execute\<close> calls \<open>vm.crt_vif\<close> only on a machine
  that can be modified. There it takes the entries of the desired list that have no live
  adapter, in the order of the list, and issues one call per entry, up to and including the
  first call that raises. When no call raises, every such entry is created: for an address
  that no live adapter normalises to, there are as many creations as the list has entries
  with that address, so the list kept for creation is not de-duplicated. In every case the
  adapters are fetched once, at entry, and never again.
\<close>

theorem plug_creates_each_unmatched_entry:
  "creations (snd (PlugVifs_execute env lpar_wrap)) =
     (if fst (can_modify_io lpar_wrap)
      then issued env
             (filter (\<lambda>v. \<forall>c\<in>set (get_cnas env). norm_mac env (mac c) \<noteq> address v)
                (network_info env))
      else [])
   \<and> (fst (can_modify_io lpar_wrap)
        \<and> (\<forall>v\<in>set (trim_vifs env (get_cnas env) [] (network_info env)). \<not> crt_vif_raises env v)
        \<longrightarrow>
        creations (snd (PlugVifs_execute env lpar_wrap)) =
          filter (\<lambda>v. \<forall>c\<in>set (get_cnas env). norm_mac env (mac c) \<noteq> address v)
            (network_info env)
        \<and> ((\<forall>c\<in>set (get_cnas env). norm_mac env (mac c) \<noteq> a) \<longrightarrow>
             length (filter (\<lambda>v. address v = a) (creations (snd (PlugVifs_execute env lpar_wrap))))
               = length (filter (\<lambda>v. address v = a) (network_info env))))
   \<and> (\<exists>tr. snd (PlugVifs_execute env lpar_wrap) =
          Log INFO Plugging [instance_name env] # GetCnas # tr \<and> GetCnas \<notin> set tr)"
proof (intro conjI impI)
  show "creations (snd (PlugVifs_execute env lpar_wrap)) =
     (if fst (can_modify_io lpar_wrap)
      then issued env
             (filter (\<lambda>v. \<forall>c\<in>set (get_cnas env). norm_mac env (mac c) \<noteq> address v)
                (network_info env))
      else [])"
    using plug_creations_issued [of env lpar_wrap] by (simp add: trim_vifs_unmatched)
next
  show "\<exists>tr. snd (PlugVifs_execute env lpar_wrap) =
          Log INFO Plugging [instance_name env] # GetCnas # tr \<and> GetCnas \<notin> set tr"
    by (rule plug_fetches_once)
next
  assume h: "fst (can_modify_io lpar_wrap)
        \<and> (\<forall>v\<in>set (trim_vifs env (get_cnas env) [] (network_info env)). \<not> crt_vif_raises env v)"
  then have "issued env (trim_vifs env (get_cnas env) [] (network_info env))
      = trim_vifs env (get_cnas env) [] (network_info env)"
    by (simp add: issued_all)
  with h plug_creations_issued [of env lpar_wrap]
  show eq: "creations (snd (PlugVifs_execute env lpar_wrap)) =
       filter (\<lambda>v. \<forall>c\<in>set (get_cnas env). norm_mac env (mac c) \<noteq> address v) (network_info env)"
    by (simp add: trim_vifs_unmatched)
  assume a: "\<forall>c\<in>set (get_cnas env). norm_mac env (mac c) \<noteq> a"
  have "filter (\<lambda>v. address v = a)
          (filter (\<lambda>v. \<forall>c\<in>set (get_cnas env). norm_mac env (mac c) \<noteq> address v) (network_info env))
        = filter (\<lambda>v. address v = a) (network_info env)"
    unfolding filter_filter using a by (intro filter_cong) auto
  then show "length (filter (\<lambda>v. address v = a) (creations (snd (PlugVifs_execute env lpar_wrap))))
            = length (filter (\<lambda>v. address v = a) (network_info env))"
    unfolding eq by simp
qed

text \<open>The desired list with "cc:dd" twice: two creations for that address on a machine that
  can be modified, none on one that cannot.\<close>

lemma unmatched_env_dup:
  "filter (\<lambda>v. \<forall>c\<in>set (get_cnas env_dup). norm_mac env_dup (mac c) \<noteq> address v)
     (network_info env_dup) = [vif_cc_dd, vif_cc_dd]"
  by (simp add: env_dup_def inputs)

lemma no_crt_raise_env_dup: "\<forall>v\<in>set (network_info env_dup). \<not> crt_vif_raises env_dup v"
  by (simp add: env_dup_def env0_def)

theorem plug_creates_each_unmatched_entry_witness:
  "fst (can_modify_io lpar_ok)
   \<and> network_info env_dup = [vif_cc_dd, vif_cc_dd]
   \<and> norm_mac env_dup (mac cna_AA_BB) \<noteq> ''cc:dd''
   \<and> length (filter (\<lambda>v. address v = ''cc:dd'') (creations (snd (PlugVifs_execute env_dup lpar_ok))))
       = 2
   \<and> \<not> fst (can_modify_io lpar_off)
   \<and> creations (snd (PlugVifs_execute env_dup lpar_off)) = []"
proof -
  have m: "fst (can_modify_io lpar_ok)" by (simp add: lpar_ok_def)
  have off: "\<not> fst (can_modify_io lpar_off)" by (simp add: lpar_off_def)
  have n: "network_info env_dup = [vif_cc_dd, vif_cc_dd]" by (simp add: env_dup_def)
  have a: "\<forall>c\<in>set (get_cnas env_dup). norm_mac env_dup (mac c) \<noteq> ''cc:dd''"
    by (simp add: env_dup_def inputs)
  then have a': "norm_mac env_dup (mac cna_AA_BB) \<noteq> ''cc:dd''" by (simp add: env_dup_def env0_def)
  have ok: "\<forall>v\<in>set (trim_vifs env_dup (get_cnas env_dup) [] (network_info env_dup)).
      \<not> crt_vif_raises env_dup v"
    by (simp add: env_dup_def env0_def)
  from plug_creates_each_unmatched_entry [of env_dup lpar_ok "''cc:dd''"] m ok a
  have "length (filter (\<lambda>v. address v = ''cc:dd'') (creations (snd (PlugVifs_execute env_dup lpar_ok))))
      = length (filter (\<lambda>v. address v = ''cc:dd'') (network_info env_dup))"
    by blast
  also have "\<dots> = 2" unfolding n by (simp add: vif_cc_dd_def)
  finally have r1: "length (filter (\<lambda>v. address v = ''cc:dd'')
      (creations (snd (PlugVifs_execute env_dup lpar_ok)))) = 2" .
  from plug_creates_each_unmatched_entry [of env_dup lpar_off "''cc:dd''"] off
  have r2: "creations (snd (PlugVifs_execute env_dup lpar_off)) = []" by simp
  from m n a' r1 off r2 show ?thesis by blast
qed

text \<open>
  C7 as stated fails: "cc:dd" is desired twice, the live adapter "AA:BB" does not match
  it, and \<open>vm.crt_vif\<close> is called for both entries.
\<close>

theorem duplicate_address_counterexample:
  "network_info env_dup = [vif_cc_dd, vif_cc_dd]
   \<and> get_cnas env_dup = [cna_AA_BB]
   \<and> norm_mac env_dup (mac cna_AA_BB) \<noteq> norm_mac env_dup (address vif_cc_dd)
   \<and> creations (snd (PlugVifs_execute env_dup lpar_ok)) = [vif_cc_dd, vif_cc_dd]"
proof -
  have m: "fst (can_modify_io lpar_ok)" by (simp add: lpar_ok_def)
  have "creations (snd (PlugVifs_execute env_dup lpar_ok)) = [vif_cc_dd, vif_cc_dd]"
    using plug_creations [OF m no_crt_raise_env_dup] unmatched_env_dup by simp
  moreover have "network_info env_dup = [vif_cc_dd, vif_cc_dd]" "get_cnas env_dup = [cna_AA_BB]"
    "norm_mac env_dup (mac cna_AA_BB) \<noteq> norm_mac env_dup (address vif_cc_dd)"
    by (simp_all add: env_dup_def inputs)
  ultimately show ?thesis by blast
qed

subsection \<open>The management adapter\<close>

lemma on_vswitch_iff:
  "on_vswitch vswitch_w cnas \<longleftrightarrow> (\<exists>c\<in>set cnas. vswitch_uri c = href vswitch_w)"
  by (induction cnas) auto

text \<open>
  C8. \<open>PlugMgmtVif.execute\<close> returns \<open>None\<close> exactly when the host has no management
  switch or an adapter of the supplied list is on that switch, and then it creates nothing.
  Otherwise it calls \<open>vm.crt_secure_rmc_vif\<close> once and returns its result, an adapter on
  that switch.
\<close>

theorem PlugMgmtVif_execute_spec:
  "(fst (PlugMgmtVif_execute env vm_cnas) = None \<longleftrightarrow>
      get_secure_rmc_vswitch env = None
      \<or> (\<exists>sw. get_secure_rmc_vswitch env = Some sw \<and> (\<exists>c\<in>set vm_cnas. vswitch_uri c = href sw)))
   \<and> (fst (PlugMgmtVif_execute env vm_cnas) = None \<longrightarrow>
        mgmt_creations (snd (PlugMgmtVif_execute env vm_cnas)) = 0)
   \<and> (\<forall>sw. get_secure_rmc_vswitch env = Some sw \<and> (\<forall>c\<in>set vm_cnas. vswitch_uri c \<noteq> href sw) \<longrightarrow>
        fst (PlugMgmtVif_execute env vm_cnas) = Some (crt_secure_rmc_vif env sw)
        \<and> vswitch_uri (crt_secure_rmc_vif env sw) = href sw
        \<and> mgmt_creations (snd (PlugMgmtVif_execute env vm_cnas)) = 1)"
proof (cases "get_secure_rmc_vswitch env")
  case None
  then show ?thesis by (simp add: PlugMgmtVif_execute_def mgmt_creations_def)
next
  case (Some sw)
  show ?thesis
  proof (cases "on_vswitch sw vm_cnas")
    case True
    with Some show ?thesis
      by (auto simp: PlugMgmtVif_execute_def mgmt_creations_def on_vswitch_iff)
  next
    case False
    with Some show ?thesis
      by (auto simp: PlugMgmtVif_execute_def mgmt_creations_def on_vswitch_iff
            crt_secure_rmc_vif_def)
  qed
qed

text \<open>An adapter list without, and with, an adapter on the management switch; a host
  without management switch.\<close>

theorem PlugMgmtVif_execute_spec_witness:
  "get_secure_rmc_vswitch env0 = Some \<lparr>href = ''/vswitch/MGMTSWITCH''\<rparr>
   \<and> vswitch_uri cna_AA_BB \<noteq> ''/vswitch/MGMTSWITCH''
   \<and> fst (PlugMgmtVif_execute env0 [cna_AA_BB]) =
       Some \<lparr>mac = ''fa:ce:00:00:00:01'', vswitch_uri = ''/vswitch/MGMTSWITCH''\<rparr>
   \<and> mgmt_creations (snd (PlugMgmtVif_execute env0 [cna_AA_BB])) = 1
   \<and> vswitch_uri cna_mgmt = ''/vswitch/MGMTSWITCH''
   \<and> fst (PlugMgmtVif_execute env0 [cna_AA_BB, cna_mgmt]) = None
   \<and> mgmt_creations (snd (PlugMgmtVif_execute env0 [cna_AA_BB, cna_mgmt])) = 0
   \<and> get_secure_rmc_vswitch env_no_mgmt = None
   \<and> fst (PlugMgmtVif_execute env_no_mgmt [cna_AA_BB]) = None"
proof -
  let ?sw = "\<lparr>href = ''/vswitch/MGMTSWITCH''\<rparr>"
  have s: "get_secure_rmc_vswitch env0 = Some ?sw" by (simp add: env0_def)
  have u: "vswitch_uri cna_AA_BB \<noteq> ''/vswitch/MGMTSWITCH''" by (simp add: cna_AA_BB_def)
  then have nb: "\<forall>c\<in>set [cna_AA_BB]. vswitch_uri c \<noteq> href ?sw" by simp
  have g: "vswitch_uri cna_mgmt = ''/vswitch/MGMTSWITCH''" by (simp add: cna_mgmt_def)
  then have b: "\<exists>c\<in>set [cna_AA_BB, cna_mgmt]. vswitch_uri c = href ?sw" by simp
  have n: "get_secure_rmc_vswitch env_no_mgmt = None" by (simp add: env_no_mgmt_def)
  have c: "crt_secure_rmc_vif env0 ?sw =
      \<lparr>mac = ''fa:ce:00:00:00:01'', vswitch_uri = ''/vswitch/MGMTSWITCH''\<rparr>"
    by (simp add: crt_secure_rmc_vif_def env0_def)
  from PlugMgmtVif_execute_spec [of env0 "[cna_AA_BB]"] s nb
  have r1: "fst (PlugMgmtVif_execute env0 [cna_AA_BB]) = Some (crt_secure_rmc_vif env0 ?sw)"
    "mgmt_creations (snd (PlugMgmtVif_execute env0 [cna_AA_BB])) = 1"
    by blast+
  from PlugMgmtVif_execute_spec [of env0 "[cna_AA_BB, cna_mgmt]"] s b
  have r2: "fst (PlugMgmtVif_execute env0 [cna_AA_BB, cna_mgmt]) = None" by blast
  with PlugMgmtVif_execute_spec [of env0 "[cna_AA_BB, cna_mgmt]"]
  have r3: "mgmt_creations (snd (PlugMgmtVif_execute env0 [cna_AA_BB, cna_mgmt])) = 0" by blast
  from PlugMgmtVif_execute_spec [of env_no_mgmt "[cna_AA_BB]"] n
  have r4: "fst (PlugMgmtVif_execute env_no_mgmt [cna_AA_BB]) = None" by blast
  from s u r1 r2 r3 r4 g n show ?thesis unfolding c by blast
qed

text \<open>
  C9. On a machine that can be modified, with something to create, no creation raising and
  fatal plugging: when a registered event has not arrived at the deadline,
  \<open>PlugVifs.execute\<close> raises \<open>VirtualInterfaceCreateException\<close>; every interface kept for
  creation has been created by then, and nothing is deleted.
\<close>

theorem plug_timeout_no_rollback:
  assumes "fst (can_modify_io lpar_wrap)"
    and "trim_vifs env (get_cnas env) [] (network_info env) \<noteq> []"
    and "\<forall>v\<in>set (trim_vifs env (get_cnas env) [] (network_info env)). \<not> crt_vif_raises env v"
    and "vif_plugging_is_fatal env"
    and "\<exists>e\<in>set (get_vif_events env). event_status env e = Never"
  shows "fst (PlugVifs_execute env lpar_wrap) = Inl (VirtualInterfaceCreateException [])
    \<and> creations (snd (PlugVifs_execute env lpar_wrap))
        = trim_vifs env (get_cnas env) [] (network_info env)
    \<and> deletions (snd (PlugVifs_execute env lpar_wrap)) = []"
proof (intro conjI)
  from assms(5) obtain e where "e \<in> set (get_vif_events env)" "event_status env e = Never"
    by blast
  then have "e \<in> set (get_vif_events env)" "event_status env e \<noteq> Completed" by simp_all
  then have "\<not> (\<forall>e\<in>set (get_vif_events env). event_status env e = Completed)"
    by blast
  with assms(1,3) show "fst (PlugVifs_execute env lpar_wrap) = Inl (VirtualInterfaceCreateException [])"
    unfolding plug_result [OF assms(2)] by simp
  from crt_vifs_loop_ok [OF assms(3)] plug_modifiable_trace(3) [OF assms(2,1)]
  show "creations (snd (PlugVifs_execute env lpar_wrap))
        = trim_vifs env (get_cnas env) [] (network_info env)"
    by simp
  show "deletions (snd (PlugVifs_execute env lpar_wrap)) = []"
    by (rule plug_modifiable_trace(2) [OF assms(2,1)])
qed

text \<open>The scenario input when the event of port-2 never arrives: "cc:dd" stays created.\<close>

theorem plug_timeout_no_rollback_witness:
  "fst (can_modify_io lpar_ok)
   \<and> trim_vifs env_timeout (get_cnas env_timeout) [] (network_info env_timeout) = [vif_cc_dd]
   \<and> vif_plugging_is_fatal env_timeout
   \<and> get_vif_events env_timeout =
       [(''network-vif-plugged'', ''port-1''), (''network-vif-plugged'', ''port-2'')]
   \<and> event_status env_timeout (''network-vif-plugged'', ''port-2'') = Never
   \<and> fst (PlugVifs_execute env_timeout lpar_ok) = Inl (VirtualInterfaceCreateException [])
   \<and> creations (snd (PlugVifs_execute env_timeout lpar_ok)) = [vif_cc_dd]"
proof -
  have m: "fst (can_modify_io lpar_ok)" by (simp add: lpar_ok_def)
  have t: "trim_vifs env_timeout (get_cnas env_timeout) [] (network_info env_timeout) = [vif_cc_dd]"
    by (simp add: env_timeout_def inputs)
  then have nz: "trim_vifs env_timeout (get_cnas env_timeout) [] (network_info env_timeout) \<noteq> []"
    by simp
  have ok: "\<forall>v\<in>set (trim_vifs env_timeout (get_cnas env_timeout) [] (network_info env_timeout)).
      \<not> crt_vif_raises env_timeout v"
    by (simp add: env_timeout_def env0_def)
  have f: "vif_plugging_is_fatal env_timeout" by (simp add: env_timeout_def env0_def)
  have ev: "get_vif_events env_timeout =
       [(''network-vif-plugged'', ''port-1''), (''network-vif-plugged'', ''port-2'')]"
    by (simp add: get_vif_events_def get_active_def env_timeout_def inputs)
  have nv: "event_status env_timeout (''network-vif-plugged'', ''port-2'') = Never"
    by (simp add: env_timeout_def)
  from ev nv have ex: "\<exists>e\<in>set (get_vif_events env_timeout). event_status env_timeout e = Never"
    by simp
  from plug_timeout_no_rollback [OF m nz ok f ex] m t f ev nv show ?thesis by simp
qed

end
